theory Spec2Isabelle
  imports Complex_Main "HOL-Library.AList" "HOL-Library.Sublist"
begin

section \<open>Python values, exceptions and external effects\<close>

text \<open>
  A Python \<open>str\<close> is a sequence of Unicode code points; slicing, \<open>startswith\<close>,
  \<open>lstrip\<close> and \<open>replace\<close> all count code points. A code point is a natural number and
  \<open>lit\<close> turns an ASCII literal of the source into its code points.
\<close>

type_synonym codepoint = nat
type_synonym str = "codepoint list"

definition lit :: "string \<Rightarrow> str" where
  "lit s = map of_char s"

text \<open>U+2581 LOWER ONE EIGHTH BLOCK, the word-start marker of the tokenizer.\<close>

definition lower_one_eighth_block :: codepoint where
  "lower_one_eighth_block = 9601"

definition startswith :: "str \<Rightarrow> str \<Rightarrow> bool" where
  "startswith s p = (take (length p) s = p)"

text \<open>\<open>sep.join(xs)\<close>.\<close>

fun join :: "str \<Rightarrow> str list \<Rightarrow> str" where
  "join sep [] = []"
| "join sep [x] = x"
| "join sep (x # y # ys) = x @ sep @ join sep (y # ys)"

text \<open>
  The values that travel through the pipeline. A dict is an association list in insertion
  order whose first binding of a key is the dict's (\<open>AList.update\<close> is item assignment).
  An object carries its attributes and, when its class defines \<open>__getitem__\<close> (as the
  crew output of the orchestration library does), the items that subscripting reaches.
\<close>

datatype pyval =
    PNone
  | PStr str
  | PInt int
  | PFloat real
  | PList "pyval list"
  | PDict "(str \<times> pyval) list"
  | PObj "(str \<times> pyval) list" "(str \<times> pyval) list option"

datatype exn =
    KeyError pyval
  | TypeError
  | AttributeError str
  | ServiceError str

text \<open>
  An action runs against the world outside the program (the hosted models, the search
  service, the vector index) and either raises or returns, leaving a new world.
\<close>

type_synonym ('w, 'a) action = "'w \<Rightarrow> (exn + 'a) \<times> 'w"

definition ret :: "'a \<Rightarrow> ('w, 'a) action" where
  "ret x w = (Inr x, w)"

definition raise :: "exn \<Rightarrow> ('w, 'a) action" where
  "raise e w = (Inl e, w)"

definition bind :: "('w, 'a) action \<Rightarrow> ('a \<Rightarrow> ('w, 'b) action) \<Rightarrow> ('w, 'b) action" where
  "bind m f w = (case m w of (Inl e, w') \<Rightarrow> (Inl e, w') | (Inr x, w') \<Rightarrow> f x w')"

text \<open>A computation of the program itself that may raise, run as an action.\<close>

definition lift :: "exn + 'a \<Rightarrow> ('w, 'a) action" where
  "lift r w = (r, w)"

text \<open>
  Subscripting with a string key, attribute access and iteration. A dict raises \<open>KeyError\<close>
  for a missing key, as the crew output's \<open>__getitem__\<close> does; strings, lists, numbers and
  \<open>None\<close> take no string subscript. Only objects carry the attributes the program reads.
\<close>

fun getitem :: "pyval \<Rightarrow> str \<Rightarrow> exn + pyval" where
  "getitem (PDict d) key =
     (case map_of d key of None \<Rightarrow> Inl (KeyError (PStr key)) | Some v \<Rightarrow> Inr v)"
| "getitem (PObj attrs (Some items)) key =
     (case map_of items key of None \<Rightarrow> Inl (KeyError (PStr key)) | Some v \<Rightarrow> Inr v)"
| "getitem _ key = Inl TypeError"

fun getattr :: "pyval \<Rightarrow> str \<Rightarrow> exn + pyval" where
  "getattr (PObj attrs items) name =
     (case map_of attrs name of None \<Rightarrow> Inl (AttributeError name) | Some v \<Rightarrow> Inr v)"
| "getattr _ name = Inl (AttributeError name)"

fun iter :: "pyval \<Rightarrow> exn + pyval list" where
  "iter (PList xs) = Inr xs"
| "iter (PDict d) = Inr (map (\<lambda>(k, v). PStr k) d)"
| "iter (PStr s) = Inr (map (\<lambda>c. PStr [c]) s)"
| "iter _ = Inl TypeError"

text \<open>\<open>d.get(key, fallback)\<close> on a dict.\<close>

definition dict_get :: "(str \<times> pyval) list \<Rightarrow> str \<Rightarrow> pyval \<Rightarrow> pyval" where
  "dict_get d key fallback = (case map_of d key of None \<Rightarrow> fallback | Some v \<Rightarrow> v)"

text \<open>
  A list comprehension \<open>[f(x) for x in xs]\<close> whose element expression may raise: the first
  exception ends it.
\<close>

fun comprehension :: "('a \<Rightarrow> exn + 'b) \<Rightarrow> 'a list \<Rightarrow> exn + 'b list" where
  "comprehension f [] = Inr []"
| "comprehension f (x # xs) =
     (case f x of
        Inl e \<Rightarrow> Inl e
      | Inr y \<Rightarrow> (case comprehension f xs of Inl e \<Rightarrow> Inl e | Inr ys \<Rightarrow> Inr (y # ys)))"

text \<open>
  \<open>str(v)\<close>: a string is its own string form; the form of any other value is given by its
  type, which \<open>render\<close> stands for.
\<close>

definition py_str :: "(pyval \<Rightarrow> str) \<Rightarrow> pyval \<Rightarrow> str" where
  "py_str render v = (case v of PStr s \<Rightarrow> s | _ \<Rightarrow> render v)"

text \<open>\<open>v > x\<close> for a float \<open>x\<close>: numbers compare by value, anything else raises \<open>TypeError\<close>.\<close>

fun gt_float :: "pyval \<Rightarrow> real \<Rightarrow> exn + bool" where
  "gt_float (PFloat r) x = Inr (r > x)"
| "gt_float (PInt i) x = Inr (real_of_int i > x)"
| "gt_float _ x = Inl TypeError"

section \<open>hugging_face_ner.py\<close>

text \<open>
  Lines 18 to 36 of \<open>process_ner_output\<close> call the tokenizer and the token-classification
  model; \<open>tag_tokens text max_length\<close> stands for them and yields \<open>tokens\<close> and
  \<open>predicted_labels\<close>.
\<close>

definition lstrip_block :: "str \<Rightarrow> str" where
  "lstrip_block token = dropWhile (\<lambda>c. c = lower_one_eighth_block) token"

definition filtered_result_of :: "(str \<times> str) list \<Rightarrow> (str \<times> str) list" where
  "filtered_result_of result =
     map (\<lambda>(token, label). (lstrip_block token, label))
       (filter (\<lambda>(token, label). label \<noteq> lit ''O'') result)"

fun collect_unique_tags :: "str list \<Rightarrow> str list \<Rightarrow> str list" where
  "collect_unique_tags unique_tags [] = unique_tags"
| "collect_unique_tags unique_tags (entry # rest) =
     (if startswith entry (lit ''B'') \<and> drop 2 entry \<notin> set unique_tags
      then collect_unique_tags (unique_tags @ [drop 2 entry]) rest
      else collect_unique_tags unique_tags rest)"

definition process_ner_output ::
  "(str \<Rightarrow> nat \<Rightarrow> ('w, str list \<times> str list) action) \<Rightarrow> str \<Rightarrow> nat
     \<Rightarrow> ('w, (str \<times> str) list \<times> str list) action" where
  "process_ner_output tag_tokens text max_length =
     bind (tag_tokens text max_length) (\<lambda>(tokens, predicted_labels).
       ret (filtered_result_of (zip tokens predicted_labels),
            collect_unique_tags [] predicted_labels))"

text \<open>
  \<open>generate_clean_ner_report\<close>. The report is a dict from tag to entity strings;
  \<open>report[current_label].append(...)\<close> raises \<open>KeyError\<close> when the label is no key.
\<close>

type_synonym report = "(str \<times> str list) list"

definition report_append :: "report \<Rightarrow> str option \<Rightarrow> str \<Rightarrow> exn + report" where
  "report_append report current_label entity =
     (case current_label of
        None \<Rightarrow> Inl (KeyError PNone)
      | Some l \<Rightarrow>
          (case map_of report l of
             None \<Rightarrow> Inl (KeyError (PStr l))
           | Some entities \<Rightarrow> Inr (AList.update l (entities @ [entity]) report)))"

fun empty_report :: "report \<Rightarrow> str list \<Rightarrow> report" where
  "empty_report report [] = report"
| "empty_report report (tag # tags) =
     (if tag \<noteq> lit ''SEVERITY'' then empty_report (AList.update tag [] report) tags
      else empty_report report tags)"

definition unwanted_tokens :: "str set" where
  "unwanted_tokens = {lit ''[CLS]'', lit ''[SEP]''}"

definition flush :: "report \<Rightarrow> str list \<Rightarrow> str option \<Rightarrow> exn + report" where
  "flush report current_entity current_label =
     (if current_entity \<noteq> [] then report_append report current_label (join (lit '' '') current_entity)
      else Inr report)"

fun report_loop ::
  "report \<Rightarrow> str list \<Rightarrow> str option \<Rightarrow> (str \<times> str) list \<Rightarrow> exn + (report \<times> str list \<times> str option)" where
  "report_loop report current_entity current_label [] = Inr (report, current_entity, current_label)"
| "report_loop report current_entity current_label ((token0, tag) # rest) =
     (let token = filter (\<lambda>c. c \<noteq> lower_one_eighth_block) token0 in
      if token \<in> unwanted_tokens then report_loop report current_entity current_label rest
      else if startswith tag (lit ''B-'') then
        (case flush report current_entity current_label of
           Inl e \<Rightarrow> Inl e
         | Inr report' \<Rightarrow> report_loop report' [token] (Some (drop 2 tag)) rest)
      else if startswith tag (lit ''I-'') \<and> current_label = Some (drop 2 tag) then
        report_loop report (current_entity @ [token]) current_label rest
      else
        (case flush report current_entity current_label of
           Inl e \<Rightarrow> Inl e
         | Inr report' \<Rightarrow> report_loop report' [] None rest))"

definition generate_clean_ner_report :: "(str \<times> str) list \<Rightarrow> str list \<Rightarrow> exn + report" where
  "generate_clean_ner_report tagged_tokens unique_tags =
     (case report_loop (empty_report [] unique_tags) [] None tagged_tokens of
        Inl e \<Rightarrow> Inl e
      | Inr (report, current_entity, current_label) \<Rightarrow> flush report current_entity current_label)"

section \<open>output_pydantic.py\<close>

record PreliminaryDiagnosisOutput =
  preliminary_diagnosis :: str
  reasoning :: str
  recommendations :: "str list"

record PreliminaryDiagnosisListOutput =
  entries :: "PreliminaryDiagnosisOutput list"

text \<open>
  A validated model as the object the program meets: a \<open>PreliminaryDiagnosisOutput\<close> is an
  object with its three fields as attributes, and the crew output that holds a
  \<open>PreliminaryDiagnosisListOutput\<close> answers a subscript with the model's field.
\<close>

definition diagnosis_object :: "PreliminaryDiagnosisOutput \<Rightarrow> pyval" where
  "diagnosis_object x =
     PObj [(lit ''preliminary_diagnosis'', PStr (preliminary_diagnosis x)),
           (lit ''reasoning'', PStr (reasoning x)),
           (lit ''recommendations'', PList (map PStr (recommendations x)))] None"

definition crew_output :: "PreliminaryDiagnosisListOutput \<Rightarrow> pyval" where
  "crew_output x =
     PObj [(lit ''pydantic'', PObj [(lit ''entries'', PList (map diagnosis_object (entries x)))] None)]
          (Some [(lit ''entries'', PList (map diagnosis_object (entries x)))])"

section \<open>The services outside the repository\<close>

text \<open>
  The tagger (tokenizer and model), the three crews' \<open>kickoff(inputs)\<close>, the search client's
  \<open>search(query, search_depth)\<close> for an API key, the vector index's
  \<open>similarity_search(query, k)\<close>, the language model's \<open>invoke(prompt)\<close>, the two task
  \<open>run\<close>s, a model's \<open>dict()\<close>, and the built-in \<open>str\<close> of values and of exceptions.
\<close>

record document =
  page_content :: str

type_synonym faiss = "document list"

record 'w services =
  tagger :: "str \<Rightarrow> nat \<Rightarrow> ('w, str list \<times> str list) action"
  ner_validation_crew :: "(str \<times> pyval) list \<Rightarrow> ('w, pyval) action"
  prelim_diag_crew :: "(str \<times> pyval) list \<Rightarrow> ('w, pyval) action"
  report_writing_crew :: "(str \<times> pyval) list \<Rightarrow> ('w, pyval) action"
  tavily_search :: "str \<Rightarrow> str \<Rightarrow> str \<Rightarrow> ('w, (str \<times> pyval) list) action"
  similarity_search :: "faiss \<Rightarrow> str \<Rightarrow> nat \<Rightarrow> ('w, document list) action"
  llm_invoke :: "str \<Rightarrow> ('w, pyval) action"
  medicine_info_task_run :: "str \<Rightarrow> ('w, pyval) action"
  medicine_comparison_task_run :: "str \<Rightarrow> str \<Rightarrow> ('w, pyval) action"
  to_dict :: "pyval \<Rightarrow> exn + pyval"
  render :: "pyval \<Rightarrow> str"
  exn_text :: "exn \<Rightarrow> str"

section \<open>flow.py\<close>

record cdss_pipeline =
  sample_text :: str
  tavily_api :: str
  state :: "(str \<times> pyval) list"

definition state_set :: "cdss_pipeline \<Rightarrow> str \<Rightarrow> pyval \<Rightarrow> cdss_pipeline" where
  "state_set self key v = self\<lparr>state := AList.update key v (state self)\<rparr>"

definition state_get :: "cdss_pipeline \<Rightarrow> str \<Rightarrow> exn + pyval" where
  "state_get self key =
     (case map_of (state self) key of None \<Rightarrow> Inl (KeyError (PStr key)) | Some v \<Rightarrow> Inr v)"

definition report_value :: "report \<Rightarrow> pyval" where
  "report_value report = PDict (map (\<lambda>(tag, entities). (tag, PList (map PStr entities))) report)"

subsection \<open>Step 1: Run HuggingFace NER\<close>

definition initial_hugging_face_ner_report :: "'w services \<Rightarrow> cdss_pipeline \<Rightarrow> ('w, pyval) action" where
  "initial_hugging_face_ner_report srv self =
     bind (process_ner_output (tagger srv) (sample_text self) 512) (\<lambda>(tagged_tokens, unique_tags).
     bind (lift (generate_clean_ner_report tagged_tokens unique_tags)) (\<lambda>report.
     ret (PDict [(lit ''report'', report_value report),
                 (lit ''sample_text'', PStr (sample_text self))])))"

subsection \<open>Step 2: Validate NER\<close>

definition ner_validation_method ::
  "'w services \<Rightarrow> cdss_pipeline \<Rightarrow> pyval \<Rightarrow> ('w, pyval \<times> cdss_pipeline) action" where
  "ner_validation_method srv self report_dict =
     bind (lift (getitem report_dict (lit ''report''))) (\<lambda>report.
     bind (lift (getitem report_dict (lit ''sample_text''))) (\<lambda>text.
     bind (ner_validation_crew srv [(lit ''input_text'', text), (lit ''ner_output'', report)])
       (\<lambda>post_ner_report.
     ret (post_ner_report, state_set self (lit ''post_ner_report'') post_ner_report))))"

subsection \<open>Step 3: Preliminary Diagnosis\<close>

definition prelim_diag_method ::
  "'w services \<Rightarrow> cdss_pipeline \<Rightarrow> pyval \<Rightarrow> ('w, pyval \<times> cdss_pipeline) action" where
  "prelim_diag_method srv self post_ner_report =
     bind (prelim_diag_crew srv [(lit ''output_count'', PInt 3),
                                 (lit ''post_ner_report'', post_ner_report)])
       (\<lambda>prelim_report.
     ret (prelim_report, state_set self (lit ''prelim_report'') prelim_report))"

subsection \<open>Step 4: Extract only diagnosis strings\<close>

definition entries_by_attribute :: "pyval \<Rightarrow> exn + pyval list" where
  "entries_by_attribute prelim_report =
     (case getitem prelim_report (lit ''entries'') of
        Inl e \<Rightarrow> Inl e
      | Inr es \<Rightarrow>
          (case iter es of
             Inl e \<Rightarrow> Inl e
           | Inr xs \<Rightarrow> comprehension (\<lambda>entry. getattr entry (lit ''preliminary_diagnosis'')) xs))"

definition entries_by_key :: "pyval \<Rightarrow> exn + pyval list" where
  "entries_by_key prelim_report =
     (case getitem prelim_report (lit ''entries'') of
        Inl e \<Rightarrow> Inl e
      | Inr es \<Rightarrow>
          (case iter es of
             Inl e \<Rightarrow> Inl e
           | Inr xs \<Rightarrow> comprehension (\<lambda>e. getitem e (lit ''preliminary_diagnosis'')) xs))"

fun dict_with_entries :: "pyval \<Rightarrow> bool" where
  "dict_with_entries (PDict d) = (lit ''entries'' \<in> fst ` set d)"
| "dict_with_entries _ = False"

definition extract_diagnosis_method :: "(pyval \<Rightarrow> str) \<Rightarrow> pyval \<Rightarrow> exn + pyval list" where
  "extract_diagnosis_method rnd prelim_report =
     (case entries_by_attribute prelim_report of
        Inr diagnosis \<Rightarrow> Inr diagnosis
      | Inl _ \<Rightarrow>
          if dict_with_entries prelim_report then entries_by_key prelim_report
          else Inr [PStr (py_str rnd prelim_report)])"

subsection \<open>Step 5: Tavily Best Practices Search\<close>

definition practice_of :: "(str \<times> pyval) list \<Rightarrow> pyval" where
  "practice_of result =
     PDict [(lit ''title'', dict_get result (lit ''title'') (PStr [])),
            (lit ''url'', dict_get result (lit ''url'') (PStr [])),
            (lit ''summary'', dict_get result (lit ''content'') (PStr []))]"

text \<open>
  The search client is built from the API key and asked once per diagnosis;
  \<open>tavily_search srv api_key\<close> is the built client's \<open>search\<close>. The filtered comprehension
  over the results: each result's \<open>get\<close> needs a dict, the condition is evaluated before
  the element.
\<close>

fun practices_of :: "pyval list \<Rightarrow> exn + pyval list" where
  "practices_of [] = Inr []"
| "practices_of (PDict result # rest) =
     (case gt_float (dict_get result (lit ''score'') (PInt 0)) (1 / 2) of
        Inl e \<Rightarrow> Inl e
      | Inr keep \<Rightarrow>
          (case practices_of rest of
             Inl e \<Rightarrow> Inl e
           | Inr ps \<Rightarrow> Inr (if keep then practice_of result # ps else ps)))"
| "practices_of (_ # rest) = Inl (AttributeError (lit ''get''))"

definition results_of :: "(str \<times> pyval) list \<Rightarrow> exn + pyval list" where
  "results_of response =
     (case iter (dict_get response (lit ''results'') (PList [])) of
        Inl e \<Rightarrow> Inl e
      | Inr rs \<Rightarrow> practices_of rs)"

definition search_query :: "(pyval \<Rightarrow> str) \<Rightarrow> pyval \<Rightarrow> str" where
  "search_query rnd entry = lit ''Best Practices for '' @ py_str rnd entry"

fun best_practices_loop ::
  "'w services \<Rightarrow> str \<Rightarrow> pyval list \<Rightarrow> pyval list \<Rightarrow> ('w, pyval list) action" where
  "best_practices_loop srv api_key best_practices_summary [] = ret best_practices_summary"
| "best_practices_loop srv api_key best_practices_summary (entry # rest) =
     bind (tavily_search srv api_key (search_query (render srv) entry) (lit ''advanced''))
       (\<lambda>response.
     bind (lift (results_of response)) (\<lambda>results.
     best_practices_loop srv api_key
       (best_practices_summary @
          [PDict [(lit ''best_practices_for'', entry), (lit ''practices'', PList results)]])
       rest))"

definition best_practises ::
  "'w services \<Rightarrow> cdss_pipeline \<Rightarrow> pyval list \<Rightarrow> ('w, pyval \<times> cdss_pipeline) action" where
  "best_practises srv self diagnosis =
     bind (best_practices_loop srv (tavily_api self) [] diagnosis) (\<lambda>best_practices_summary.
     ret (PList best_practices_summary,
          state_set self (lit ''best_practices_summary'') (PList best_practices_summary)))"

subsection \<open>Step 6: Report Writing\<close>

definition report_writing_method :: "'w services \<Rightarrow> cdss_pipeline \<Rightarrow> ('w, pyval) action" where
  "report_writing_method srv self =
     bind (lift (state_get self (lit ''post_ner_report''))) (\<lambda>post_ner_report.
     bind (lift (state_get self (lit ''prelim_report''))) (\<lambda>prelim_report.
     bind (lift (state_get self (lit ''best_practices_summary''))) (\<lambda>best_practices_summary.
     report_writing_crew srv [(lit ''post_ner_report'', post_ner_report),
                              (lit ''prelim_diagnosis'', prelim_report),
                              (lit ''best_pracs'', best_practices_summary)])))"

subsection \<open>The decorators: the step graph\<close>

datatype method_name =
    Initial_hugging_face_ner_report
  | Ner_validation_method
  | Prelim_diag_method
  | Extract_diagnosis_method
  | Best_practises
  | Report_writing_method

text \<open>
  The conditions the orchestration library offers: \<open>@start()\<close>, \<open>@listen(m)\<close>,
  \<open>@listen(and_(...))\<close> and \<open>@listen(or_(...))\<close>.
\<close>

datatype condition =
    Start
  | Listen method_name
  | And_of "method_name list"
  | Or_of "method_name list"

fun decorator :: "method_name \<Rightarrow> condition" where
  "decorator Initial_hugging_face_ner_report = Start"
| "decorator Ner_validation_method = Listen Initial_hugging_face_ner_report"
| "decorator Prelim_diag_method = Listen Ner_validation_method"
| "decorator Extract_diagnosis_method = Listen Prelim_diag_method"
| "decorator Best_practises = Listen Extract_diagnosis_method"
| "decorator Report_writing_method =
     And_of [Ner_validation_method, Prelim_diag_method, Best_practises]"

definition methods :: "method_name list" where
  "methods = [Initial_hugging_face_ner_report, Ner_validation_method, Prelim_diag_method,
              Extract_diagnosis_method, Best_practises, Report_writing_method]"

text \<open>The methods a given method triggers through a plain \<open>@listen\<close>.\<close>

definition listeners :: "method_name \<Rightarrow> method_name list" where
  "listeners m = filter (\<lambda>l. decorator l = Listen m) methods"

subsection \<open>The flow engine\<close>

text \<open>
  How the orchestration library runs a flow: a start method runs at kickoff; a listener of
  \<open>m\<close> runs once \<open>m\<close> has finished and receives what \<open>m\<close> returned; an \<open>and_\<close> listener runs
  once all its methods have finished, an \<open>or_\<close> listener once one of them has; a method that
  raises ends the run; the flow's result is what the last method returned.
\<close>

fun satisfied :: "condition \<Rightarrow> method_name list \<Rightarrow> bool" where
  "satisfied Start finished = True"
| "satisfied (Listen m) finished = (m \<in> set finished)"
| "satisfied (And_of ms) finished = (set ms \<subseteq> set finished)"
| "satisfied (Or_of ms) finished = (set ms \<inter> set finished \<noteq> {})"

definition runnable :: "method_name list \<Rightarrow> method_name list" where
  "runnable finished =
     filter (\<lambda>m. m \<notin> set finished \<and> satisfied (decorator m) finished) methods"

text \<open>Every order in which the engine may run the methods, one at a time.\<close>

fun schedule_from :: "method_name list \<Rightarrow> method_name list \<Rightarrow> bool" where
  "schedule_from finished [] = True"
| "schedule_from finished (m # rest) =
     (m \<in> set (runnable finished) \<and> schedule_from (finished @ [m]) rest)"

definition schedule :: "method_name list \<Rightarrow> bool" where
  "schedule order = schedule_from [] order"

definition argument :: "method_name \<Rightarrow> (method_name \<times> pyval) list \<Rightarrow> pyval option" where
  "argument m outputs = (case decorator m of Listen t \<Rightarrow> map_of outputs t | _ \<Rightarrow> None)"

text \<open>
  Calling a method of the class. A method with a parameter called without it is a
  \<open>TypeError\<close>; \<open>extract_diagnosis_method\<close> and \<open>best_practises\<close> pass a list between them.
\<close>

fun run_method ::
  "'w services \<Rightarrow> method_name \<Rightarrow> cdss_pipeline \<Rightarrow> pyval option \<Rightarrow> ('w, pyval \<times> cdss_pipeline) action" where
  "run_method srv Initial_hugging_face_ner_report self a =
     bind (initial_hugging_face_ner_report srv self) (\<lambda>r. ret (r, self))"
| "run_method srv Ner_validation_method self (Some a) = ner_validation_method srv self a"
| "run_method srv Prelim_diag_method self (Some a) = prelim_diag_method srv self a"
| "run_method srv Extract_diagnosis_method self (Some a) =
     bind (lift (extract_diagnosis_method (render srv) a)) (\<lambda>diagnosis.
     ret (PList diagnosis, self))"
| "run_method srv Best_practises self (Some a) =
     bind (lift (iter a)) (\<lambda>diagnosis. best_practises srv self diagnosis)"
| "run_method srv Report_writing_method self a =
     bind (report_writing_method srv self) (\<lambda>r. ret (r, self))"
| "run_method srv m self None = raise TypeError"

lemma length_filter_mono:
  "(\<And>y. Q y \<Longrightarrow> P y) \<Longrightarrow> length (filter Q xs) \<le> length (filter P xs)"
  by (induction xs) auto

lemma length_filter_strict:
  assumes "x \<in> set xs" "P x" "\<not> Q x" and imp: "\<And>y. Q y \<Longrightarrow> P y"
  shows "length (filter Q xs) < length (filter P xs)"
  using assms(1)
proof (induction xs)
  case Nil
  then show ?case by simp
next
  case (Cons a xs)
  have le: "length (filter Q xs) \<le> length (filter P xs)"
    using imp by (rule length_filter_mono)
  show ?case
  proof (cases "x = a")
    case True
    with assms(2,3) le show ?thesis by auto
  next
    case False
    with Cons have "length (filter Q xs) < length (filter P xs)" by auto
    then show ?thesis using imp by auto
  qed
qed

lemma runnable_member:
  "runnable finished = m # ms \<Longrightarrow> m \<in> set methods \<and> m \<notin> set finished"
proof -
  assume "runnable finished = m # ms"
  then have "m \<in> set (runnable finished)" by simp
  then show ?thesis by (simp add: runnable_def)
qed

function execute ::
  "'w services \<Rightarrow> cdss_pipeline \<Rightarrow> (method_name \<times> pyval) list
     \<Rightarrow> ('w, cdss_pipeline \<times> (method_name \<times> pyval) list) action" where
  "execute srv self outputs w =
     (case runnable (map fst outputs) of
        [] \<Rightarrow> (Inr (self, outputs), w)
      | m # ms \<Rightarrow>
          (case run_method srv m self (argument m outputs) w of
             (Inl e, w') \<Rightarrow> (Inl e, w')
           | (Inr (v, self'), w') \<Rightarrow> execute srv self' (outputs @ [(m, v)]) w'))"
  by pat_completeness auto

text \<open>Every round runs a method that has not run before, so the run ends.\<close>

termination execute
proof (relation "measure (\<lambda>(srv, self, outputs, w).
                   length (filter (\<lambda>m. m \<notin> fst ` set outputs) methods))")
  show "wf (measure (\<lambda>(srv :: 'a services, self :: cdss_pipeline,
                       outputs :: (method_name \<times> pyval) list, w :: 'a).
          length (filter (\<lambda>m. m \<notin> fst ` set outputs) methods)))"
    by simp
next
  fix srv :: "'a services" and self :: cdss_pipeline and outputs :: "(method_name \<times> pyval) list"
    and w :: 'a and m ms x1 x2 z v self'
  assume r: "runnable (map fst outputs) = m # ms"
  from runnable_member[OF r] have mem: "m \<in> set methods" and fresh: "m \<notin> fst ` set outputs"
    by auto
  have "length (filter (\<lambda>m'. m' \<notin> fst ` set (outputs @ [(m, v)])) methods)
          < length (filter (\<lambda>m'. m' \<notin> fst ` set outputs) methods)"
    using mem fresh
    by (intro length_filter_strict[where x = m]) auto
  then show "((srv, self', outputs @ [(m, v)], x2), srv, self, outputs, w)
          \<in> measure (\<lambda>(srv, self, outputs, w).
                length (filter (\<lambda>m. m \<notin> fst ` set outputs) methods))"
    by simp
qed

definition kickoff :: "'w services \<Rightarrow> cdss_pipeline \<Rightarrow> ('w, pyval) action" where
  "kickoff srv self =
     bind (execute srv self []) (\<lambda>(self', outputs).
     ret (if outputs = [] then PNone else snd (last outputs)))"

text \<open>
  The pipeline as the specification words it: entity extraction over the note, validation
  by the crew with the note and the report, preliminary diagnoses from the validated
  report, a search of best practices for the extracted diagnoses, and the synthesis of
  the report from the three results.
\<close>

definition staged_pipeline :: "'w services \<Rightarrow> cdss_pipeline \<Rightarrow> ('w, pyval) action" where
  "staged_pipeline srv self =
     bind (process_ner_output (tagger srv) (sample_text self) 512) (\<lambda>(tagged_tokens, unique_tags).
     bind (lift (generate_clean_ner_report tagged_tokens unique_tags)) (\<lambda>report.
     bind (ner_validation_crew srv [(lit ''input_text'', PStr (sample_text self)),
                                    (lit ''ner_output'', report_value report)]) (\<lambda>validated.
     bind (prelim_diag_crew srv [(lit ''output_count'', PInt 3),
                                 (lit ''post_ner_report'', validated)]) (\<lambda>diagnoses.
     bind (lift (extract_diagnosis_method (render srv) diagnoses)) (\<lambda>extracted.
     bind (best_practices_loop srv (tavily_api self) [] extracted) (\<lambda>practices.
     report_writing_crew srv [(lit ''post_ner_report'', validated),
                              (lit ''prelim_diagnosis'', diagnoses),
                              (lit ''best_pracs'', PList practices)]))))))"

section \<open>medicine_rag_agent.py\<close>








section \<open>app.py\<close>















section \<open>Concrete services for the worked examples\<close>

text \<open>A tagger that answers every text with four tokens and counts its calls in the world.\<close>

definition demo_tag_tokens :: "str \<Rightarrow> nat \<Rightarrow> (nat, str list \<times> str list) action" where
  "demo_tag_tokens text max_length w =
     (Inr ([lit ''[CLS]'', lower_one_eighth_block # lit ''fever'',
            lower_one_eighth_block # lit ''and'', lower_one_eighth_block # lit ''cough''],
           [lit ''O'', lit ''B-SIGN_SYMPTOM'', lit ''O'', lit ''B-SIGN_SYMPTOM'']), Suc w)"

definition demo_tagged_tokens :: "(str \<times> str) list" where
  "demo_tagged_tokens =
     [(lit ''[CLS]'', lit ''B-AGE''), (lower_one_eighth_block # lit ''42'', lit ''B-AGE''),
      (lower_one_eighth_block # lit ''year'', lit ''I-AGE''),
      (lower_one_eighth_block # lit ''diabetes'', lit ''B-DISEASE''),
      (lit ''[SEP]'', lit ''I-DISEASE'')]"

text \<open>
  Services whose world counts the calls made to them. The validation crew fails on the
  very first call of a world and answers with its inputs afterwards; the report crew
  answers with its inputs; the diagnosis crew answers with a single-entry model.
\<close>

definition demo_diagnoses :: PreliminaryDiagnosisListOutput where
  "demo_diagnoses =
     \<lparr>entries = [\<lparr>preliminary_diagnosis = lit ''Influenza'',
                   reasoning = lit ''fever with cough'',
                   recommendations = [lit ''rest'', lit ''fluids'']\<rparr>]\<rparr>"

definition demo_response :: "(str \<times> pyval) list" where
  "demo_response =
     [(lit ''results'',
       PList [PDict [(lit ''title'', PStr (lit ''Guideline'')), (lit ''url'', PStr (lit ''https://a'')),
                     (lit ''content'', PStr (lit ''Rest and fluids'')), (lit ''score'', PFloat (9 / 10))],
              PDict [(lit ''title'', PStr (lit ''Forum'')), (lit ''score'', PFloat (3 / 10))],
              PDict [(lit ''title'', PStr (lit ''Unscored''))]])]"

definition demo_to_dict :: "pyval \<Rightarrow> exn + pyval" where
  "demo_to_dict v = (case v of PObj attrs items \<Rightarrow> Inr (PDict attrs) | _ \<Rightarrow> Inl (AttributeError (lit ''dict'')))"

definition demo_exn_text :: "exn \<Rightarrow> str" where
  "demo_exn_text e = (case e of ServiceError t \<Rightarrow> t | KeyError k \<Rightarrow> lit ''key'' | TypeError \<Rightarrow> lit ''type''
                       | AttributeError a \<Rightarrow> a)"

definition demo_services :: "nat services" where
  "demo_services =
     \<lparr>tagger = demo_tag_tokens,
      ner_validation_crew = (\<lambda>inputs w. if w = 0 then (Inl (ServiceError (lit ''model overloaded'')), Suc w)
                                          else (Inr (PDict inputs), Suc w)),
      prelim_diag_crew = (\<lambda>inputs w. (Inr (crew_output demo_diagnoses), Suc w)),
      report_writing_crew = (\<lambda>inputs w. (Inr (PDict inputs), Suc w)),
      tavily_search = (\<lambda>api_key query search_depth w. (Inr demo_response, Suc w)),
      similarity_search = (\<lambda>db query k w. (Inr (take k db), Suc w)),
      llm_invoke = (\<lambda>prompt w. (Inr (PStr prompt), Suc w)),
      medicine_info_task_run = (\<lambda>medicine_name w. (Inr (PObj [(lit ''brand_name'', PStr medicine_name)] None), Suc w)),
      medicine_comparison_task_run = (\<lambda>a b w. (Inr (PStr (lit ''equivalent'')), Suc w)),
      to_dict = demo_to_dict,
      render = (\<lambda>v. lit ''<value>''),
      exn_text = demo_exn_text\<rparr>"

definition demo_self :: cdss_pipeline where
  "demo_self = \<lparr>sample_text = lit ''fever and cough'', tavily_api = lit ''tvly-key'', state = []\<rparr>"

text \<open>The summary the example search yields for two diagnoses.\<close>

definition demo_summary :: "pyval list" where
  "demo_summary =
     [PDict [(lit ''best_practices_for'', PStr (lit ''Influenza'')),
             (lit ''practices'', PList [PDict [(lit ''title'', PStr (lit ''Guideline'')),
                                               (lit ''url'', PStr (lit ''https://a'')),
                                               (lit ''summary'', PStr (lit ''Rest and fluids''))]])],
      PDict [(lit ''best_practices_for'', PStr (lit ''Asthma'')),
             (lit ''practices'', PList [PDict [(lit ''title'', PStr (lit ''Guideline'')),
                                               (lit ''url'', PStr (lit ''https://a'')),
                                               (lit ''summary'', PStr (lit ''Rest and fluids''))]])]]"

section \<open>Predicates of the statements\<close>

text \<open>
  A search response as the search service documents it: \<open>results\<close>, when present, is a list
  of dicts whose \<open>score\<close>, when present, is a number. \<open>high_score\<close> is the test
  \<open>result.get("score", 0) > 0.5\<close> on such a result, and \<open>summary_entry\<close> says that an
  entry of the summary belongs to a diagnosis: it names the diagnosis and its practices
  are built from high-scoring results of a response to the search for that diagnosis.
\<close>

definition well_formed_result :: "pyval \<Rightarrow> bool" where
  "well_formed_result r =
     (case r of
        PDict d \<Rightarrow> (case map_of d (lit ''score'') of
                      None \<Rightarrow> True | Some (PFloat x) \<Rightarrow> True | Some (PInt i) \<Rightarrow> True | Some _ \<Rightarrow> False)
      | _ \<Rightarrow> False)"

definition well_formed_response :: "(str \<times> pyval) list \<Rightarrow> bool" where
  "well_formed_response response =
     (case dict_get response (lit ''results'') (PList []) of
        PList rs \<Rightarrow> list_all well_formed_result rs
      | _ \<Rightarrow> False)"

definition high_score :: "(str \<times> pyval) list \<Rightarrow> bool" where
  "high_score result =
     (case map_of result (lit ''score'') of
        Some (PFloat x) \<Rightarrow> x > 1 / 2 | Some (PInt i) \<Rightarrow> real_of_int i > 1 / 2 | _ \<Rightarrow> False)"

definition summary_entry :: "'w services \<Rightarrow> str \<Rightarrow> str \<Rightarrow> pyval \<Rightarrow> bool" where
  "summary_entry srv api_key d entry \<longleftrightarrow>
     (\<exists>practices response rs w1 w2.
        entry = PDict [(lit ''best_practices_for'', PStr d), (lit ''practices'', PList practices)]
        \<and> tavily_search srv api_key (lit ''Best Practices for '' @ d) (lit ''advanced'') w1 = (Inr response, w2)
        \<and> dict_get response (lit ''results'') (PList []) = PList rs
        \<and> (\<forall>p\<in>set practices. \<exists>result. PDict result \<in> set rs \<and> high_score result \<and> p = practice_of result))"


section \<open>Invariants\<close>

text \<open>
  The loop of \<open>generate_clean_ner_report\<close> keeps the report's keys \<open>K\<close>, has a label
  whenever it holds tokens, only ever holds a label that is a key, and builds every entity
  from a non-empty run of tokens of \<open>G\<close>.
\<close>

definition ner_inv :: "str set \<Rightarrow> str set \<Rightarrow> report \<Rightarrow> str list \<Rightarrow> str option \<Rightarrow> bool" where
  "ner_inv K G report current_entity current_label \<longleftrightarrow>
     fst ` set report = K \<and>
     (current_entity \<noteq> [] \<longrightarrow> current_label \<noteq> None) \<and>
     (\<forall>l. current_label = Some l \<longrightarrow> l \<in> K) \<and>
     set current_entity \<subseteq> G \<and>
     (\<forall>(k, es)\<in>set report. \<forall>e\<in>set es.
        \<exists>toks. toks \<noteq> [] \<and> set toks \<subseteq> G \<and> e = join (lit '' '') toks)"

section \<open>Properties of the named-entity stage\<close>

lemma filtered_result_no_O:
  "(token, label) \<in> set (filtered_result_of result) \<Longrightarrow> label \<noteq> lit ''O''"
  by (auto simp: filtered_result_of_def)

lemma distinct_collect_unique_tags:
  "distinct acc \<Longrightarrow> distinct (collect_unique_tags acc labels)"
  by (induction labels arbitrary: acc) auto

lemma set_collect_unique_tags:
  "set (collect_unique_tags acc labels) =
     set acc \<union> {drop 2 l | l. l \<in> set labels \<and> startswith l (lit ''B'')}"
  by (induction labels arbitrary: acc) auto

lemma set_update_cases:
  "(k', v') \<in> set (AList.update k v al) \<Longrightarrow> (k', v') = (k, v) \<or> (k', v') \<in> set al"
  by (induction al) (auto split: if_splits)

lemma keys_empty_report:
  "fst ` set (empty_report r tags) = fst ` set r \<union> (set tags - {lit ''SEVERITY''})"
  by (induction tags arbitrary: r) (auto simp: dom_update)

lemma values_empty_report:
  "(k, es) \<in> set (empty_report r tags) \<Longrightarrow> (k, es) \<in> set r \<or> es = []"
  by (induction tags arbitrary: r) (auto dest: set_update_cases split: if_splits)


lemma flush_inv:
  assumes "ner_inv K G report ce cl"
  shows "\<exists>report'. flush report ce cl = Inr report' \<and> ner_inv K G report' [] None"
proof (cases "ce = []")
  case True
  with assms show ?thesis by (auto simp: flush_def ner_inv_def)
next
  case False
  with assms obtain l where l: "cl = Some l" "l \<in> K" by (auto simp: ner_inv_def)
  with assms have lk: "l \<in> fst ` set report" by (simp add: ner_inv_def)
  then obtain es where es: "map_of report l = Some es"
    by (metis domD dom_map_of_conv_image_fst)
  then have mem: "(l, es) \<in> set report" by (rule map_of_SomeD)
  let ?r = "AList.update l (es @ [join (lit '' '') ce]) report"
  have fl: "flush report ce cl = Inr ?r"
    using False l es by (simp add: flush_def report_append_def)
  have keys: "fst ` set ?r = K"
    using assms l lk by (auto simp: dom_update ner_inv_def)
  have good: "\<exists>toks. toks \<noteq> [] \<and> set toks \<subseteq> G \<and> e = join (lit '' '') toks"
    if "(k, es') \<in> set ?r" "e \<in> set es'" for k es' e
  proof -
    from that(1) consider "es' = es @ [join (lit '' '') ce]" | "(k, es') \<in> set report"
      by (auto dest: set_update_cases)
    then show ?thesis
    proof cases
      case 1
      with that(2) consider "e \<in> set es" | "e = join (lit '' '') ce" by auto
      then show ?thesis
      proof cases
        case 1
        with mem assms show ?thesis by (fastforce simp: ner_inv_def)
      next
        case 2
        with False assms show ?thesis by (auto simp: ner_inv_def)
      qed
    next
      case 2
      with that(2) assms show ?thesis by (fastforce simp: ner_inv_def)
    qed
  qed
  show ?thesis using fl keys good by (auto simp: ner_inv_def)
qed

lemma report_loop_inv:
  assumes "ner_inv K G report ce cl"
    and "\<forall>(token, tag)\<in>set tts. startswith tag (lit ''B-'') \<longrightarrow> drop 2 tag \<in> K"
    and "\<forall>(token, tag)\<in>set tts.
           filter (\<lambda>c. c \<noteq> lower_one_eighth_block) token \<notin> unwanted_tokens \<longrightarrow>
           filter (\<lambda>c. c \<noteq> lower_one_eighth_block) token \<in> G"
  shows "\<exists>report' ce' cl'. report_loop report ce cl tts = Inr (report', ce', cl')
           \<and> ner_inv K G report' ce' cl'"
  using assms
proof (induction tts arbitrary: report ce cl)
  case Nil
  then show ?case by simp
next
  case (Cons p tts)
  obtain token0 tag where p: "p = (token0, tag)" by (cases p)
  let ?token = "filter (\<lambda>c. c \<noteq> lower_one_eighth_block) token0"
  have rest1: "\<forall>(token, tag)\<in>set tts. startswith tag (lit ''B-'') \<longrightarrow> drop 2 tag \<in> K"
    and rest2: "\<forall>(token, tag)\<in>set tts.
           filter (\<lambda>c. c \<noteq> lower_one_eighth_block) token \<notin> unwanted_tokens \<longrightarrow>
           filter (\<lambda>c. c \<noteq> lower_one_eighth_block) token \<in> G"
    using Cons.prems by auto
  show ?case
  proof (cases "?token \<in> unwanted_tokens")
    case True
    then show ?thesis using Cons.IH[OF Cons.prems(1) rest1 rest2] p by simp
  next
    case unw: False
    then have tokG: "?token \<in> G" using Cons.prems(3) p by auto
    obtain report' where fl: "flush report ce cl = Inr report'" and inv': "ner_inv K G report' [] None"
      using flush_inv[OF Cons.prems(1)] by blast
    show ?thesis
    proof (cases "startswith tag (lit ''B-'')")
      case True
      then have "drop 2 tag \<in> K" using Cons.prems(2) p by auto
      with inv' tokG have "ner_inv K G report' [?token] (Some (drop 2 tag))"
        by (simp add: ner_inv_def)
      from Cons.IH[OF this rest1 rest2] show ?thesis using p unw True fl by simp
    next
      case notB: False
      show ?thesis
      proof (cases "startswith tag (lit ''I-'') \<and> cl = Some (drop 2 tag)")
        case True
        have "ner_inv K G report (ce @ [?token]) cl"
          using Cons.prems(1) tokG True by (simp add: ner_inv_def)
        from Cons.IH[OF this rest1 rest2] show ?thesis using p unw notB True by simp
      next
        case False
        from Cons.IH[OF inv' rest1 rest2] show ?thesis using p unw notB False fl by auto
      qed
    qed
  qed
qed

text \<open>
  C9. When no tag of \<open>tagged_tokens\<close> has the category \<open>SEVERITY\<close> and the category of
  every \<open>B-\<close> or \<open>I-\<close> tag occurs in \<open>unique_tags\<close>, \<open>generate_clean_ner_report\<close> returns a
  report (no \<open>KeyError\<close>), the keys of the report are among \<open>unique_tags\<close> and
  \<open>SEVERITY\<close> is not one of them, and every entity string is the space-joined run of one or
  more cleaned input tokens none of which is the token \<open>[CLS]\<close> or \<open>[SEP]\<close>.
\<close>

theorem C9:
  assumes no_severity: "\<forall>(token, tag)\<in>set tagged_tokens. drop 2 tag \<noteq> lit ''SEVERITY''"
    and known: "\<forall>(token, tag)\<in>set tagged_tokens.
           startswith tag (lit ''B-'') \<or> startswith tag (lit ''I-'') \<longrightarrow> drop 2 tag \<in> set unique_tags"
  shows "\<exists>report. generate_clean_ner_report tagged_tokens unique_tags = Inr report
           \<and> fst ` set report \<subseteq> set unique_tags
           \<and> lit ''SEVERITY'' \<notin> fst ` set report
           \<and> (\<forall>(tag, entities)\<in>set report. \<forall>entity\<in>set entities.
                 \<exists>toks. toks \<noteq> [] \<and> entity = join (lit '' '') toks
                   \<and> set toks \<subseteq> (\<lambda>(token, tag). filter (\<lambda>c. c \<noteq> lower_one_eighth_block) token) ` set tagged_tokens
                   \<and> lit ''[CLS]'' \<notin> set toks \<and> lit ''[SEP]'' \<notin> set toks)"
proof -
  define K where "K = set unique_tags - {lit ''SEVERITY''}"
  define G where "G = (\<lambda>(token, tag). filter (\<lambda>c. c \<noteq> lower_one_eighth_block) token) ` set tagged_tokens - unwanted_tokens"
  have "es = []" if "(k, es) \<in> set (empty_report [] unique_tags)" for k es
    using values_empty_report[OF that] by simp
  then have init: "ner_inv K G (empty_report [] unique_tags) [] None"
    by (fastforce simp: ner_inv_def keys_empty_report K_def)
  have h1: "\<forall>(token, tag)\<in>set tagged_tokens. startswith tag (lit ''B-'') \<longrightarrow> drop 2 tag \<in> K"
    using no_severity known by (auto simp: K_def)
  have h2: "\<forall>(token, tag)\<in>set tagged_tokens.
           filter (\<lambda>c. c \<noteq> lower_one_eighth_block) token \<notin> unwanted_tokens \<longrightarrow>
           filter (\<lambda>c. c \<noteq> lower_one_eighth_block) token \<in> G"
    by (auto simp: G_def)
  from report_loop_inv[OF init h1 h2] obtain r ce cl where
    loop: "report_loop (empty_report [] unique_tags) [] None tagged_tokens = Inr (r, ce, cl)"
    and inv: "ner_inv K G r ce cl" by blast
  from flush_inv[OF inv] obtain report where
    fl: "flush r ce cl = Inr report" and inv': "ner_inv K G report [] None" by blast
  have res: "generate_clean_ner_report tagged_tokens unique_tags = Inr report"
    using loop fl by (simp add: generate_clean_ner_report_def)
  have keys: "fst ` set report = K" using inv' by (simp add: ner_inv_def)
  have ents: "\<exists>toks. toks \<noteq> [] \<and> entity = join (lit '' '') toks
                   \<and> set toks \<subseteq> (\<lambda>(token, tag). filter (\<lambda>c. c \<noteq> lower_one_eighth_block) token) ` set tagged_tokens
                   \<and> lit ''[CLS]'' \<notin> set toks \<and> lit ''[SEP]'' \<notin> set toks"
    if "(tag, entities) \<in> set report" "entity \<in> set entities" for tag entities entity
  proof -
    from inv' that obtain toks where "toks \<noteq> []" "set toks \<subseteq> G" "entity = join (lit '' '') toks"
      by (fastforce simp: ner_inv_def)
    then show ?thesis by (intro exI[of _ toks]) (auto simp: G_def unwanted_tokens_def)
  qed
  show ?thesis
    using res keys ents by (intro exI[of _ report]) (auto simp: K_def)
qed


theorem C9_witness:
  "\<exists>report. generate_clean_ner_report demo_tagged_tokens [lit ''AGE'', lit ''DISEASE''] = Inr report
     \<and> report = [(lit ''AGE'', [lit ''42 year'']), (lit ''DISEASE'', [lit ''diabetes''])]
     \<and> fst ` set report \<subseteq> set [lit ''AGE'', lit ''DISEASE'']
     \<and> lit ''SEVERITY'' \<notin> fst ` set report"
proof -
  let ?ut = "[lit ''AGE'', lit ''DISEASE'']"
  have h1: "\<forall>(token, tag)\<in>set demo_tagged_tokens. drop 2 tag \<noteq> lit ''SEVERITY''"
    by (simp add: demo_tagged_tokens_def lit_def)
  have h2: "\<forall>(token, tag)\<in>set demo_tagged_tokens.
           startswith tag (lit ''B-'') \<or> startswith tag (lit ''I-'') \<longrightarrow> drop 2 tag \<in> set ?ut"
    by (simp add: demo_tagged_tokens_def lit_def startswith_def)
  have v: "generate_clean_ner_report demo_tagged_tokens ?ut =
             Inr [(lit ''AGE'', [lit ''42 year'']), (lit ''DISEASE'', [lit ''diabetes''])]"
    by (simp add: generate_clean_ner_report_def demo_tagged_tokens_def flush_def report_append_def
        unwanted_tokens_def lower_one_eighth_block_def startswith_def lit_def)
  from C9[OF h1 h2] v show ?thesis by auto
qed

text \<open>
  C10. Whenever the tagger answers, \<open>process_ner_output\<close> returns a filtered token-label
  list in which no pair carries the label \<open>O\<close> and a \<open>unique_tags\<close> list without duplicates
  whose elements are exactly the categories \<open>entry[2:]\<close> of the predicted labels that begin
  with \<open>B\<close>.
\<close>

theorem C10:
  assumes "tag_tokens text max_length w = (Inr (tokens, predicted_labels), w')"
  shows "\<exists>filtered_result unique_tags.
           process_ner_output tag_tokens text max_length w = (Inr (filtered_result, unique_tags), w')
           \<and> (\<forall>(token, label)\<in>set filtered_result. label \<noteq> lit ''O'')
           \<and> distinct unique_tags
           \<and> set unique_tags = {drop 2 l | l. l \<in> set predicted_labels \<and> startswith l (lit ''B'')}"
  using assms
  by (auto simp: process_ner_output_def bind_def ret_def set_collect_unique_tags
      distinct_collect_unique_tags dest: filtered_result_no_O)

theorem C10_witness:
  "\<exists>filtered_result unique_tags.
     process_ner_output demo_tag_tokens (lit ''fever and cough'') 512 0 =
       (Inr (filtered_result, unique_tags), 1)
     \<and> filtered_result = [(lit ''fever'', lit ''B-SIGN_SYMPTOM''), (lit ''cough'', lit ''B-SIGN_SYMPTOM'')]
     \<and> unique_tags = [lit ''SIGN_SYMPTOM'']
     \<and> distinct unique_tags"
proof -
  have h: "demo_tag_tokens (lit ''fever and cough'') 512 0 =
      (Inr ([lit ''[CLS]'', lower_one_eighth_block # lit ''fever'',
             lower_one_eighth_block # lit ''and'', lower_one_eighth_block # lit ''cough''],
            [lit ''O'', lit ''B-SIGN_SYMPTOM'', lit ''O'', lit ''B-SIGN_SYMPTOM'']), 1)"
    by (simp add: demo_tag_tokens_def)
  have v: "process_ner_output demo_tag_tokens (lit ''fever and cough'') 512 0 =
      (Inr ([(lit ''fever'', lit ''B-SIGN_SYMPTOM''), (lit ''cough'', lit ''B-SIGN_SYMPTOM'')],
            [lit ''SIGN_SYMPTOM'']), 1)"
    by (simp add: process_ner_output_def demo_tag_tokens_def bind_def ret_def filtered_result_of_def
        lstrip_block_def lower_one_eighth_block_def startswith_def lit_def)
  from C10[where tag_tokens = demo_tag_tokens, OF h] v show ?thesis by auto
qed

section \<open>Literals\<close>

lemma lit_eq_iff: "lit a = lit b \<longleftrightarrow> a = b"
proof -
  have "inj (of_char :: char \<Rightarrow> nat)" by (rule injI) simp
  then show ?thesis by (simp add: lit_def inj_map_eq_map)
qed

lemma lit_Nil: "lit [] = []"
  by (simp add: lit_def)

lemma lit_Nil_iff: "lit s = [] \<longleftrightarrow> s = []" "[] = lit s \<longleftrightarrow> s = []"
  by (auto simp: lit_def)

lemma lit_append: "lit a @ lit b = lit (a @ b)"
  by (simp add: lit_def)

lemma length_lit: "length (lit s) = length s"
  by (simp add: lit_def)

lemma take_lit: "take n (lit s) = lit (take n s)"
  by (simp add: lit_def take_map)

lemma drop_lit: "drop n (lit s) = lit (drop n s)"
  by (simp add: lit_def drop_map)

lemma block_notin_lit: "lower_one_eighth_block \<notin> set (lit s)"
proof
  assume "lower_one_eighth_block \<in> set (lit s)"
  then obtain c :: char where "lower_one_eighth_block = of_char c" by (auto simp: lit_def)
  moreover have "of_char c < (256 :: nat)" by simp
  ultimately show False by (simp add: lower_one_eighth_block_def)
qed

lemma filter_block_lit: "filter (\<lambda>c. c \<noteq> lower_one_eighth_block) (lit s) = lit s"
  using block_notin_lit[of s] by (auto simp: filter_id_conv)

lemma dropWhile_block_lit: "dropWhile (\<lambda>c. c = lower_one_eighth_block) (lit s) = lit s"
  using block_notin_lit[of s] by (cases "lit s") auto

lemma startswith_lit: "startswith (lit s) (lit p) \<longleftrightarrow> take (length p) s = p"
  by (simp add: startswith_def length_lit take_lit lit_eq_iff)

lemma join_lit2: "join (lit sep) (lit x # lit y # ys) = lit (x @ sep) @ join (lit sep) (lit y # ys)"
  by (simp add: lit_append[symmetric])

lemmas lit_simps = lit_eq_iff lit_Nil_iff lit_append length_lit take_lit drop_lit filter_block_lit
  dropWhile_block_lit startswith_lit

section \<open>Laws of actions\<close>

lemma bind_ret: "bind (ret x) f = f x"
  by (rule ext) (simp add: bind_def ret_def)

lemma bind_assoc: "bind (bind m f) g = bind m (\<lambda>x. bind (f x) g)"
  by (rule ext) (simp add: bind_def split: prod.splits sum.splits)

lemma bind_ret_right: "bind m ret = m"
  by (rule ext) (simp add: bind_def ret_def split: prod.splits sum.splits)

lemma state_set_fields:
  "tavily_api (state_set self k v) = tavily_api self"
  "sample_text (state_set self k v) = sample_text self"
  by (simp_all add: state_set_def)

lemma bind_raise: "bind (raise e) f = raise e"
  by (rule ext) (simp add: bind_def raise_def)

lemma bind_lift_Inr: "bind (lift (Inr x)) f = f x"
  by (rule ext) (simp add: bind_def lift_def)

lemma bind_lift_Inl: "bind (lift (Inl e)) f = raise e"
  by (rule ext) (simp add: bind_def lift_def raise_def)


section \<open>Properties of the flow\<close>

lemma execute_step:
  "runnable (map fst outputs) = m # ms \<Longrightarrow>
     execute srv self outputs =
       bind (run_method srv m self (argument m outputs))
         (\<lambda>(v, self'). execute srv self' (outputs @ [(m, v)]))"
  by (rule ext) (simp add: bind_def split: prod.splits sum.splits)

lemma execute_done:
  "runnable (map fst outputs) = [] \<Longrightarrow> execute srv self outputs = ret (self, outputs)"
  by (rule ext) (simp add: ret_def)

lemma runnable_0: "runnable [] = [Initial_hugging_face_ner_report]"
  by (simp add: runnable_def methods_def)
lemma runnable_1: "runnable [Initial_hugging_face_ner_report] = [Ner_validation_method]"
  by (simp add: runnable_def methods_def)
lemma runnable_2: "runnable [Initial_hugging_face_ner_report, Ner_validation_method] = [Prelim_diag_method]"
  by (simp add: runnable_def methods_def)
lemma runnable_3: "runnable [Initial_hugging_face_ner_report, Ner_validation_method, Prelim_diag_method] = [Extract_diagnosis_method]"
  by (simp add: runnable_def methods_def)
lemma runnable_4: "runnable [Initial_hugging_face_ner_report, Ner_validation_method, Prelim_diag_method, Extract_diagnosis_method] = [Best_practises]"
  by (simp add: runnable_def methods_def)
lemma runnable_5: "runnable [Initial_hugging_face_ner_report, Ner_validation_method, Prelim_diag_method, Extract_diagnosis_method, Best_practises] = [Report_writing_method]"
  by (simp add: runnable_def methods_def)
lemma runnable_6: "runnable methods = []"
  by (simp add: runnable_def methods_def)

lemma schedule_prefix: "schedule order \<Longrightarrow> prefix order methods"
proof -
  have s6: "schedule_from methods r \<Longrightarrow> r = []" for r
    by (cases r) (simp_all add: runnable_6)
  have s5: "schedule_from [Initial_hugging_face_ner_report, Ner_validation_method, Prelim_diag_method, Extract_diagnosis_method, Best_practises] r
      \<Longrightarrow> prefix r [Report_writing_method]" for r
    using s6 by (cases r) (auto simp: runnable_5 methods_def)
  have s4: "schedule_from [Initial_hugging_face_ner_report, Ner_validation_method, Prelim_diag_method, Extract_diagnosis_method] r
      \<Longrightarrow> prefix r [Best_practises, Report_writing_method]" for r
    using s5 by (cases r) (auto simp: runnable_4)
  have s3: "schedule_from [Initial_hugging_face_ner_report, Ner_validation_method, Prelim_diag_method] r
      \<Longrightarrow> prefix r [Extract_diagnosis_method, Best_practises, Report_writing_method]" for r
    using s4 by (cases r) (auto simp: runnable_3)
  have s2: "schedule_from [Initial_hugging_face_ner_report, Ner_validation_method] r
      \<Longrightarrow> prefix r [Prelim_diag_method, Extract_diagnosis_method, Best_practises, Report_writing_method]" for r
    using s3 by (cases r) (auto simp: runnable_2)
  have s1: "schedule_from [Initial_hugging_face_ner_report] r
      \<Longrightarrow> prefix r [Ner_validation_method, Prelim_diag_method, Extract_diagnosis_method, Best_practises, Report_writing_method]" for r
    using s2 by (cases r) (auto simp: runnable_1)
  have s0: "schedule_from [] r \<Longrightarrow> prefix r methods" for r
    using s1 by (cases r) (auto simp: runnable_0 methods_def)
  assume "schedule order"
  then show ?thesis using s0 by (simp add: schedule_def)
qed

lemma schedule_methods: "schedule methods"
  by (simp add: schedule_def methods_def runnable_def)


lemma state_get_set_same: "state_get (state_set self k v) k = Inr v"
  by (simp add: state_get_def state_set_def update_conv')

lemma state_get_set_other: "k' \<noteq> k \<Longrightarrow> state_get (state_set self k v) k' = state_get self k'"
  by (simp add: state_get_def state_set_def update_conv')

lemma keys_distinct:
  "lit ''post_ner_report'' \<noteq> lit ''prelim_report''"
  "lit ''post_ner_report'' \<noteq> lit ''best_practices_summary''"
  "lit ''prelim_report'' \<noteq> lit ''best_practices_summary''"
  "lit ''sample_text'' \<noteq> lit ''report''"
  by (simp_all add: lit_def)

lemma execute_unfolded:
  "execute srv self [] =
     bind (initial_hugging_face_ner_report srv self) (\<lambda>r.
     bind (ner_validation_method srv self r) (\<lambda>p1.
     bind (prelim_diag_method srv (snd p1) (fst p1)) (\<lambda>p2.
     bind (lift (extract_diagnosis_method (render srv) (fst p2))) (\<lambda>d.
     bind (best_practises srv (snd p2) d) (\<lambda>p3.
     bind (report_writing_method srv (snd p3)) (\<lambda>v4.
     ret (snd p3,
          [(Initial_hugging_face_ner_report, r), (Ner_validation_method, fst p1),
           (Prelim_diag_method, fst p2), (Extract_diagnosis_method, PList d),
           (Best_practises, fst p3), (Report_writing_method, v4)])))))))"
proof -
  have e6: "execute srv s [(Initial_hugging_face_ner_report, r), (Ner_validation_method, v1),
           (Prelim_diag_method, v2), (Extract_diagnosis_method, d),
           (Best_practises, v3), (Report_writing_method, v4)] =
        ret (s, [(Initial_hugging_face_ner_report, r), (Ner_validation_method, v1),
           (Prelim_diag_method, v2), (Extract_diagnosis_method, d),
           (Best_practises, v3), (Report_writing_method, v4)])" for s r v1 v2 d v3 v4
    by (rule execute_done) (simp add: runnable_6[unfolded methods_def])
  have e5: "execute srv s [(Initial_hugging_face_ner_report, r), (Ner_validation_method, v1),
           (Prelim_diag_method, v2), (Extract_diagnosis_method, d), (Best_practises, v3)] =
        bind (report_writing_method srv s) (\<lambda>v4.
        ret (s, [(Initial_hugging_face_ner_report, r), (Ner_validation_method, v1),
           (Prelim_diag_method, v2), (Extract_diagnosis_method, d),
           (Best_practises, v3), (Report_writing_method, v4)]))" for s r v1 v2 d v3
    by (subst execute_step[where m = Report_writing_method and ms = "[]"])
       (simp_all add: runnable_5 bind_assoc bind_ret e6)
  have e4: "execute srv s [(Initial_hugging_face_ner_report, r), (Ner_validation_method, v1),
           (Prelim_diag_method, v2), (Extract_diagnosis_method, PList d)] =
        bind (best_practises srv s d) (\<lambda>p3.
        bind (report_writing_method srv (snd p3)) (\<lambda>v4.
        ret (snd p3, [(Initial_hugging_face_ner_report, r), (Ner_validation_method, v1),
           (Prelim_diag_method, v2), (Extract_diagnosis_method, PList d),
           (Best_practises, fst p3), (Report_writing_method, v4)])))" for s r v1 v2 d
    by (subst execute_step[where m = Best_practises and ms = "[]"])
       (simp_all add: runnable_4 argument_def bind_lift_Inr e5 split_def)
  have e3: "execute srv s [(Initial_hugging_face_ner_report, r), (Ner_validation_method, v1),
           (Prelim_diag_method, v2)] =
        bind (lift (extract_diagnosis_method (render srv) v2)) (\<lambda>d.
        bind (best_practises srv s d) (\<lambda>p3.
        bind (report_writing_method srv (snd p3)) (\<lambda>v4.
        ret (snd p3, [(Initial_hugging_face_ner_report, r), (Ner_validation_method, v1),
           (Prelim_diag_method, v2), (Extract_diagnosis_method, PList d),
           (Best_practises, fst p3), (Report_writing_method, v4)]))))" for s r v1 v2
    by (subst execute_step[where m = Extract_diagnosis_method and ms = "[]"])
       (simp_all add: runnable_3 argument_def bind_assoc bind_ret e4 split_def)
  have e2: "execute srv s [(Initial_hugging_face_ner_report, r), (Ner_validation_method, v1)] =
        bind (prelim_diag_method srv s v1) (\<lambda>p2.
        bind (lift (extract_diagnosis_method (render srv) (fst p2))) (\<lambda>d.
        bind (best_practises srv (snd p2) d) (\<lambda>p3.
        bind (report_writing_method srv (snd p3)) (\<lambda>v4.
        ret (snd p3, [(Initial_hugging_face_ner_report, r), (Ner_validation_method, v1),
           (Prelim_diag_method, fst p2), (Extract_diagnosis_method, PList d),
           (Best_practises, fst p3), (Report_writing_method, v4)])))))" for s r v1
    by (subst execute_step[where m = Prelim_diag_method and ms = "[]"])
       (simp_all add: runnable_2 argument_def e3 split_def)
  have e1: "execute srv s [(Initial_hugging_face_ner_report, r)] =
        bind (ner_validation_method srv s r) (\<lambda>p1.
        bind (prelim_diag_method srv (snd p1) (fst p1)) (\<lambda>p2.
        bind (lift (extract_diagnosis_method (render srv) (fst p2))) (\<lambda>d.
        bind (best_practises srv (snd p2) d) (\<lambda>p3.
        bind (report_writing_method srv (snd p3)) (\<lambda>v4.
        ret (snd p3, [(Initial_hugging_face_ner_report, r), (Ner_validation_method, fst p1),
           (Prelim_diag_method, fst p2), (Extract_diagnosis_method, PList d),
           (Best_practises, fst p3), (Report_writing_method, v4)]))))))" for s r
    by (subst execute_step[where m = Ner_validation_method and ms = "[]"])
       (simp_all add: runnable_1 argument_def e2 split_def)
  show ?thesis
    by (subst execute_step[where m = Initial_hugging_face_ner_report and ms = "[]"])
       (simp_all add: runnable_0 argument_def bind_assoc bind_ret e1 split_def)
qed

lemma kickoff_staged: "kickoff srv self = staged_pipeline srv self"
  unfolding kickoff_def execute_unfolded staged_pipeline_def
  by (simp add: bind_assoc bind_ret bind_lift_Inr split_def
      initial_hugging_face_ner_report_def ner_validation_method_def prelim_diag_method_def
      best_practises_def report_writing_method_def state_get_set_same state_get_set_other
      bind_ret_right state_set_fields
      keys_distinct keys_distinct[symmetric])


lemma bind_Inr:
  "bind m f w = (Inr y, w') \<longleftrightarrow> (\<exists>x w1. m w = (Inr x, w1) \<and> f x w1 = (Inr y, w'))"
  by (auto simp: bind_def split: prod.splits sum.splits)

lemma ret_Inr: "ret x w = (Inr y, w') \<longleftrightarrow> x = y \<and> w = w'"
  by (auto simp: ret_def)

lemma lift_Inr: "lift r w = (Inr y, w') \<longleftrightarrow> r = Inr y \<and> w = w'"
  by (auto simp: lift_def)

lemma ner_validation_method_state:
  "ner_validation_method srv self a w = (Inr p, w') \<Longrightarrow>
     snd p = state_set self (lit ''post_ner_report'') (fst p)"
  by (auto simp: ner_validation_method_def bind_Inr ret_Inr)

lemma prelim_diag_method_state:
  "prelim_diag_method srv self a w = (Inr p, w') \<Longrightarrow>
     snd p = state_set self (lit ''prelim_report'') (fst p)"
  by (auto simp: prelim_diag_method_def bind_Inr ret_Inr)

lemma best_practises_state:
  "best_practises srv self d w = (Inr p, w') \<Longrightarrow>
     snd p = state_set self (lit ''best_practices_summary'') (fst p)"
  by (auto simp: best_practises_def bind_Inr ret_Inr)

lemma report_writing_method_reads:
  "report_writing_method srv
     (state_set (state_set (state_set self (lit ''post_ner_report'') v1)
        (lit ''prelim_report'') v2) (lit ''best_practices_summary'') v3) =
   report_writing_crew srv [(lit ''post_ner_report'', v1), (lit ''prelim_diagnosis'', v2),
                            (lit ''best_pracs'', v3)]"
  by (simp add: report_writing_method_def state_get_set_same state_get_set_other
      keys_distinct keys_distinct[symmetric] bind_lift_Inr)

lemma state_lookup_final:
  "map_of (state (state_set (state_set (state_set self (lit ''post_ner_report'') v1)
        (lit ''prelim_report'') v2) (lit ''best_practices_summary'') v3)) (lit ''post_ner_report'') = Some v1"
  "map_of (state (state_set (state_set (state_set self (lit ''post_ner_report'') v1)
        (lit ''prelim_report'') v2) (lit ''best_practices_summary'') v3)) (lit ''prelim_report'') = Some v2"
  "map_of (state (state_set (state_set (state_set self (lit ''post_ner_report'') v1)
        (lit ''prelim_report'') v2) (lit ''best_practices_summary'') v3)) (lit ''best_practices_summary'') = Some v3"
  by (simp_all add: state_set_def update_conv' keys_distinct keys_distinct[symmetric])

lemma schedule_report_last:
  assumes "schedule order" "Report_writing_method \<in> set order"
  shows "order = methods"
proof -
  from schedule_prefix[OF assms(1)] have "prefix order methods" .
  then show ?thesis using assms(2) by (auto simp: methods_def prefix_Cons)
qed

lemma demo_staged: "staged_pipeline demo_services demo_self 0 =
  (Inr (PDict [(lit ''post_ner_report'',
                PDict [(lit ''input_text'', PStr (lit ''fever and cough'')),
                       (lit ''ner_output'', PDict [(lit ''SIGN_SYMPTOM'', PList [PStr (lit ''fever''), PStr (lit ''cough'')])])]),
               (lit ''prelim_diagnosis'', crew_output demo_diagnoses),
               (lit ''best_pracs'',
                PList [PDict [(lit ''best_practices_for'', PStr (lit ''Influenza'')),
                              (lit ''practices'',
                               PList [PDict [(lit ''title'', PStr (lit ''Guideline'')),
                                             (lit ''url'', PStr (lit ''https://a'')),
                                             (lit ''summary'', PStr (lit ''Rest and fluids''))]])]])]), 5)"
  by (simp add: staged_pipeline_def demo_services_def demo_self_def bind_def ret_def lift_def
      process_ner_output_def demo_tag_tokens_def filtered_result_of_def lstrip_block_def
      generate_clean_ner_report_def flush_def report_append_def unwanted_tokens_def
      report_value_def
      extract_diagnosis_method_def entries_by_attribute_def crew_output_def demo_diagnoses_def
      diagnosis_object_def search_query_def py_str_def results_of_def demo_response_def dict_get_def
      practice_of_def lit_simps)

text \<open>
  C1, as the code has it. The class decorates six methods, not five: the step graph has
  exactly six nodes, of which \<open>initial_hugging_face_ner_report\<close> is the only start
  node; every other method has a fixed trigger that is a plain \<open>listen\<close> on the method
  before it or, for \<open>report_writing_method\<close>, the \<open>and_\<close> of three methods; no method
  has an \<open>or_\<close> trigger, and no method is listened to by more than one plain listener.
\<close>

theorem C1:
  "distinct methods \<and> length methods = 6 \<and> set methods = UNIV
   \<and> filter (\<lambda>m. decorator m = Start) methods = [Initial_hugging_face_ner_report]
   \<and> map decorator methods =
        [Start, Listen Initial_hugging_face_ner_report, Listen Ner_validation_method,
         Listen Prelim_diag_method, Listen Extract_diagnosis_method,
         And_of [Ner_validation_method, Prelim_diag_method, Best_practises]]
   \<and> map listeners methods =
        [[Ner_validation_method], [Prelim_diag_method], [Extract_diagnosis_method],
         [Best_practises], [], []]"
proof -
  have "m \<in> set methods" for m
    by (cases m) (simp_all add: methods_def)
  then have "set methods = UNIV" by auto
  then show ?thesis by (simp add: methods_def listeners_def)
qed

text \<open>The number of nodes is not five.\<close>

theorem C1_counterexample:
  "distinct methods \<and> length methods \<noteq> 5"
  by (simp add: methods_def)

text \<open>
  C2. A run of the flow is the staged pipeline: entity extraction over the note, then
  validation by the crew with the note and the report, then preliminary diagnoses from
  the validated report, then the search of best practices for the extracted diagnoses,
  then the synthesis of the report. The methods in source order are a schedule of the
  engine, and every schedule is a prefix of that order.
\<close>

theorem C2:
  "kickoff srv self w = staged_pipeline srv self w
   \<and> schedule methods
   \<and> (schedule order \<longrightarrow> prefix order methods)"
  using kickoff_staged[of srv self] schedule_methods schedule_prefix[of order] by simp

theorem C2_witness:
  "schedule [Initial_hugging_face_ner_report, Ner_validation_method, Prelim_diag_method]
   \<and> prefix [Initial_hugging_face_ner_report, Ner_validation_method, Prelim_diag_method] methods
   \<and> kickoff demo_services demo_self 0 =
       (Inr (PDict [(lit ''post_ner_report'',
                PDict [(lit ''input_text'', PStr (lit ''fever and cough'')),
                       (lit ''ner_output'', PDict [(lit ''SIGN_SYMPTOM'', PList [PStr (lit ''fever''), PStr (lit ''cough'')])])]),
               (lit ''prelim_diagnosis'', crew_output demo_diagnoses),
               (lit ''best_pracs'',
                PList [PDict [(lit ''best_practices_for'', PStr (lit ''Influenza'')),
                              (lit ''practices'',
                               PList [PDict [(lit ''title'', PStr (lit ''Guideline'')),
                                             (lit ''url'', PStr (lit ''https://a'')),
                                             (lit ''summary'', PStr (lit ''Rest and fluids''))]])]])]), 5)"
proof -
  have s: "schedule [Initial_hugging_face_ner_report, Ner_validation_method, Prelim_diag_method]"
    by (simp add: schedule_def runnable_def methods_def)
  from C2[of demo_services demo_self 0
          "[Initial_hugging_face_ner_report, Ner_validation_method, Prelim_diag_method]"]
    s demo_staged
  show ?thesis by simp
qed

text \<open>
  C3. In a run that returns, the methods finished in source order, the flow state holds
  under \<open>post_ner_report\<close>, \<open>prelim_report\<close> and \<open>best_practices_summary\<close> the values that
  \<open>ner_validation_method\<close>, \<open>prelim_diag_method\<close> and \<open>best_practises\<close> returned, and the
  report crew was called with exactly those three values. In every schedule that
  contains \<open>report_writing_method\<close> the three methods come before it.
\<close>

theorem C3:
  "(execute srv self [] w = (Inr (self', outputs), w') \<longrightarrow>
      (\<exists>r v1 v2 d v3 v4 w5.
         outputs = [(Initial_hugging_face_ner_report, r), (Ner_validation_method, v1),
                    (Prelim_diag_method, v2), (Extract_diagnosis_method, d),
                    (Best_practises, v3), (Report_writing_method, v4)]
         \<and> map_of (state self') (lit ''post_ner_report'') = Some v1
         \<and> map_of (state self') (lit ''prelim_report'') = Some v2
         \<and> map_of (state self') (lit ''best_practices_summary'') = Some v3
         \<and> report_writing_crew srv [(lit ''post_ner_report'', v1), (lit ''prelim_diagnosis'', v2),
                                     (lit ''best_pracs'', v3)] w5 = (Inr v4, w')))
   \<and> (schedule order \<and> Report_writing_method \<in> set order \<longrightarrow>
        {Ner_validation_method, Prelim_diag_method, Best_practises}
          \<subseteq> set (takeWhile (\<lambda>m. m \<noteq> Report_writing_method) order))"
proof (intro conjI impI)
  assume run: "execute srv self [] w = (Inr (self', outputs), w')"
  from run[unfolded execute_unfolded bind_Inr ret_Inr lift_Inr]
  obtain r w1 p1 w2 p2 w3 d p3 w5 v4 where
    s2: "ner_validation_method srv self r w1 = (Inr p1, w2)" and
    s3: "prelim_diag_method srv (snd p1) (fst p1) w2 = (Inr p2, w3)" and
    s5: "best_practises srv (snd p2) d w3 = (Inr p3, w5)" and
    s6: "report_writing_method srv (snd p3) w5 = (Inr v4, w')" and
    fin: "snd p3 = self'"
         "[(Initial_hugging_face_ner_report, r), (Ner_validation_method, fst p1),
           (Prelim_diag_method, fst p2), (Extract_diagnosis_method, PList d),
           (Best_practises, fst p3), (Report_writing_method, v4)] = outputs"
    by auto
  have st: "self' = state_set (state_set (state_set self (lit ''post_ner_report'') (fst p1))
        (lit ''prelim_report'') (fst p2)) (lit ''best_practices_summary'') (fst p3)"
    using ner_validation_method_state[OF s2] prelim_diag_method_state[OF s3]
      best_practises_state[OF s5] fin(1) by simp
  have crew: "report_writing_crew srv [(lit ''post_ner_report'', fst p1),
        (lit ''prelim_diagnosis'', fst p2), (lit ''best_pracs'', fst p3)] w5 = (Inr v4, w')"
    using s6 fin(1) st report_writing_method_reads by metis
  show "\<exists>r v1 v2 d v3 v4 w5.
         outputs = [(Initial_hugging_face_ner_report, r), (Ner_validation_method, v1),
                    (Prelim_diag_method, v2), (Extract_diagnosis_method, d),
                    (Best_practises, v3), (Report_writing_method, v4)]
         \<and> map_of (state self') (lit ''post_ner_report'') = Some v1
         \<and> map_of (state self') (lit ''prelim_report'') = Some v2
         \<and> map_of (state self') (lit ''best_practices_summary'') = Some v3
         \<and> report_writing_crew srv [(lit ''post_ner_report'', v1), (lit ''prelim_diagnosis'', v2),
                                     (lit ''best_pracs'', v3)] w5 = (Inr v4, w')"
    using fin(2)[symmetric] crew state_lookup_final[of self "fst p1" "fst p2" "fst p3"] st
    by blast
next
  assume "schedule order \<and> Report_writing_method \<in> set order"
  then have "order = methods" using schedule_report_last by blast
  then show "{Ner_validation_method, Prelim_diag_method, Best_practises}
          \<subseteq> set (takeWhile (\<lambda>m. m \<noteq> Report_writing_method) order)"
    by (simp add: methods_def)
qed

theorem C3_witness:
  "\<exists>self' outputs.
     execute demo_services demo_self [] 0 = (Inr (self', outputs), 5)
     \<and> map fst outputs = methods
     \<and> map_of (state self') (lit ''post_ner_report'') = map_of outputs Ner_validation_method
     \<and> map_of (state self') (lit ''prelim_report'') = map_of outputs Prelim_diag_method
     \<and> map_of (state self') (lit ''best_practices_summary'') = map_of outputs Best_practises
     \<and> schedule methods
     \<and> {Ner_validation_method, Prelim_diag_method, Best_practises}
          \<subseteq> set (takeWhile (\<lambda>m. m \<noteq> Report_writing_method) methods)"
proof -
  have "kickoff demo_services demo_self 0 = staged_pipeline demo_services demo_self 0"
    by (simp add: kickoff_staged)
  then obtain v where "kickoff demo_services demo_self 0 = (Inr v, 5)"
    using demo_staged by simp
  then obtain self' outputs where
    run: "execute demo_services demo_self [] 0 = (Inr (self', outputs), 5)"
    by (auto simp: kickoff_def bind_Inr ret_Inr)
  have mem: "Report_writing_method \<in> set methods" by (simp add: methods_def)
  from C3[of demo_services demo_self 0 self' outputs 5 methods] run schedule_methods mem
  show ?thesis by (auto simp: methods_def)
qed

section \<open>Properties of the best-practices search\<close>

lemma practices_of_well_formed:
  "list_all well_formed_result rs \<Longrightarrow>
     \<exists>ps. practices_of rs = Inr ps \<and>
          (\<forall>p\<in>set ps. \<exists>result. PDict result \<in> set rs \<and> high_score result \<and> p = practice_of result)"
proof (induction rs)
  case Nil
  then show ?case by simp
next
  case (Cons r rs)
  then obtain ps where ps: "practices_of rs = Inr ps"
    "\<forall>p\<in>set ps. \<exists>result. PDict result \<in> set rs \<and> high_score result \<and> p = practice_of result"
    by auto
  from Cons.prems obtain d where d: "r = PDict d" 
    by (auto simp: well_formed_result_def split: pyval.splits)
  from Cons.prems d consider "map_of d (lit ''score'') = None"
    | x where "map_of d (lit ''score'') = Some (PFloat x)"
    | i where "map_of d (lit ''score'') = Some (PInt i)"
    by (auto simp: well_formed_result_def split: option.splits pyval.splits)
  then show ?case
  proof cases
    case 1
    then show ?thesis using ps d by (auto simp: dict_get_def)
  next
    case 2
    then show ?thesis using ps d by (auto simp: dict_get_def high_score_def)
  next
    case 3
    then show ?thesis using ps d by (auto simp: dict_get_def high_score_def)
  qed
qed

lemma results_of_well_formed:
  assumes "well_formed_response response"
  shows "\<exists>rs ps. dict_get response (lit ''results'') (PList []) = PList rs \<and> results_of response = Inr ps \<and>
          (\<forall>p\<in>set ps. \<exists>result. PDict result \<in> set rs \<and> high_score result \<and> p = practice_of result)"
proof -
  from assms obtain rs where rs: "dict_get response (lit ''results'') (PList []) = PList rs"
    "list_all well_formed_result rs"
    by (auto simp: well_formed_response_def split: pyval.splits)
  from practices_of_well_formed[OF rs(2)] rs(1) show ?thesis
    by (auto simp: results_of_def)
qed

lemma best_practices_loop_ok:
  assumes "\<And>q w. \<exists>response w'. tavily_search srv api_key q (lit ''advanced'') w = (Inr response, w')
                      \<and> well_formed_response response"
  shows "\<exists>new w'. best_practices_loop srv api_key acc (map PStr diagnosis) w = (Inr (acc @ new), w')
           \<and> list_all2 (summary_entry srv api_key) diagnosis new"
proof (induction diagnosis arbitrary: acc w)
  case Nil
  then show ?case by (simp add: ret_def)
next
  case (Cons d ds)
  from assms obtain response w1 where
    sr: "tavily_search srv api_key (lit ''Best Practices for '' @ d) (lit ''advanced'') w = (Inr response, w1)"
    and wf: "well_formed_response response" by blast
  from results_of_well_formed[OF wf] obtain rs ps where
    rs: "dict_get response (lit ''results'') (PList []) = PList rs" "results_of response = Inr ps"
    "\<forall>p\<in>set ps. \<exists>result. PDict result \<in> set rs \<and> high_score result \<and> p = practice_of result"
    by blast
  let ?e = "PDict [(lit ''best_practices_for'', PStr d), (lit ''practices'', PList ps)]"
  from Cons.IH[of "acc @ [?e]" w1] obtain new w' where
    ih: "best_practices_loop srv api_key (acc @ [?e]) (map PStr ds) w1 = (Inr ((acc @ [?e]) @ new), w')"
    "list_all2 (summary_entry srv api_key) ds new" by blast
  have e: "summary_entry srv api_key d ?e"
    unfolding summary_entry_def using sr rs by blast
  have "best_practices_loop srv api_key acc (map PStr (d # ds)) w = (Inr (acc @ (?e # new)), w')"
    using sr rs(2) ih(1) by (simp add: bind_def lift_def search_query_def py_str_def)
  then show ?case using e ih(2) by (intro exI[of _ "?e # new"] exI[of _ w']) simp
qed

text \<open>
  C8. When the search service answers every query with a well-formed response,
  \<open>best_practises\<close> on a list of diagnosis strings returns a list with exactly one summary
  entry per diagnosis, in the same order; each entry's \<open>best_practices_for\<close> is that
  diagnosis and each of its \<open>practices\<close> is built from a result of a response to the search
  for that diagnosis whose score is present and strictly greater than 0.5.
\<close>

theorem C8:
  assumes "\<And>q w. \<exists>response w'. tavily_search srv (tavily_api self) q (lit ''advanced'') w = (Inr response, w')
                      \<and> well_formed_response response"
  shows "\<exists>summary w'.
           best_practises srv self (map PStr diagnosis) w =
             (Inr (PList summary, state_set self (lit ''best_practices_summary'') (PList summary)), w')
           \<and> list_all2 (summary_entry srv (tavily_api self)) diagnosis summary"
proof -
  from best_practices_loop_ok[of srv "tavily_api self" "[]" diagnosis w, OF assms]
  obtain new w' where "best_practices_loop srv (tavily_api self) [] (map PStr diagnosis) w = (Inr new, w')"
    "list_all2 (summary_entry srv (tavily_api self)) diagnosis new" by auto
  then show ?thesis by (auto simp: best_practises_def bind_def ret_def)
qed

lemma demo_results: "results_of demo_response =
    Inr [PDict [(lit ''title'', PStr (lit ''Guideline'')), (lit ''url'', PStr (lit ''https://a'')),
                (lit ''summary'', PStr (lit ''Rest and fluids''))]]"
  by (simp add: results_of_def demo_response_def dict_get_def practice_of_def lit_eq_iff)

lemma demo_best_practises:
  "best_practises demo_services demo_self (map PStr [lit ''Influenza'', lit ''Asthma'']) 0 =
     (Inr (PList demo_summary, state_set demo_self (lit ''best_practices_summary'') (PList demo_summary)), 2)"
  by (simp add: best_practises_def demo_services_def bind_def ret_def lift_def
      search_query_def py_str_def demo_results demo_summary_def)

theorem C8_witness:
  "\<exists>w'. best_practises demo_services demo_self (map PStr [lit ''Influenza'', lit ''Asthma'']) 0 =
       (Inr (PList demo_summary, state_set demo_self (lit ''best_practices_summary'') (PList demo_summary)), w')
     \<and> list_all2 (summary_entry demo_services (tavily_api demo_self)) [lit ''Influenza'', lit ''Asthma''] demo_summary"
proof -
  have wf: "well_formed_response demo_response"
    by (simp add: well_formed_response_def demo_response_def dict_get_def well_formed_result_def
        lit_eq_iff)
  have h: "\<exists>response w'. tavily_search demo_services (tavily_api demo_self) q (lit ''advanced'') w
             = (Inr response, w') \<and> well_formed_response response" for q w
    using wf by (simp add: demo_services_def)
  from C8[of demo_services demo_self "[lit ''Influenza'', lit ''Asthma'']" 0, OF h]
  obtain summary w' where
    r: "best_practises demo_services demo_self (map PStr [lit ''Influenza'', lit ''Asthma'']) 0 =
       (Inr (PList summary, state_set demo_self (lit ''best_practices_summary'') (PList summary)), w')"
    and l: "list_all2 (summary_entry demo_services (tavily_api demo_self)) [lit ''Influenza'', lit ''Asthma''] summary"
    by blast
  from r have "summary = demo_summary" unfolding demo_best_practises by simp
  with r l show ?thesis by blast
qed

section \<open>Properties of the extraction step\<close>

lemma comprehension_all2:
  "list_all2 (\<lambda>x d. f x = Inr d) xs ds \<Longrightarrow> comprehension f xs = Inr ds"
  by (induction xs ds rule: list_all2_induct) auto

lemma comprehension_total:
  "(\<And>x. x \<in> set xs \<Longrightarrow> \<exists>d. f x = Inr d) \<Longrightarrow> \<exists>ds. comprehension f xs = Inr ds"
  by (induction xs) fastforce+

lemma dict_with_entries_iff:
  "dict_with_entries v \<longleftrightarrow> (\<exists>d es. v = PDict d \<and> map_of d (lit ''entries'') = Some es)"
proof (cases v)
  case (PDict d)
  have "lit ''entries'' \<in> fst ` set d \<longleftrightarrow> (\<exists>es. map_of d (lit ''entries'') = Some es)"
    using map_of_eq_None_iff[of d "lit ''entries''"] by auto
  with PDict show ?thesis by simp
qed simp_all

text \<open>
  C4, as the code has it. \<open>extract_diagnosis_method\<close> returns the
  \<open>preliminary_diagnosis\<close> attribute of each entry when the input answers the subscript
  \<open>entries\<close> with a collection of attribute-bearing entries; it returns the
  \<open>preliminary_diagnosis\<close> key of each entry when the input is a dict containing
  \<open>entries\<close> whose entries are dicts with that key; when the attribute path fails and the
  input is not a dict containing \<open>entries\<close> it returns the singleton list of the input's
  string form; and it returns without raising on every input that is not a dict
  containing \<open>entries\<close>. The results are strings when the extracted fields are.
\<close>

theorem C4:
  "(getitem v (lit ''entries'') = Inr es \<and> iter es = Inr xs
      \<and> list_all2 (\<lambda>x d. getattr x (lit ''preliminary_diagnosis'') = Inr d) xs ds
      \<longrightarrow> extract_diagnosis_method rnd v = Inr ds)
   \<and> (v = PDict dct \<and> map_of dct (lit ''entries'') = Some es \<and> iter es = Inr xs
      \<and> list_all2 (\<lambda>x d. \<exists>e. x = PDict e \<and> map_of e (lit ''preliminary_diagnosis'') = Some d) xs ds
      \<longrightarrow> extract_diagnosis_method rnd v = Inr ds)
   \<and> (\<not> dict_with_entries v \<and> entries_by_attribute v = Inl e
      \<longrightarrow> extract_diagnosis_method rnd v = Inr [PStr (py_str rnd v)])
   \<and> (\<not> dict_with_entries v \<longrightarrow> (\<exists>ds. extract_diagnosis_method rnd v = Inr ds))"
proof (intro conjI impI)
  assume a: "getitem v (lit ''entries'') = Inr es \<and> iter es = Inr xs
      \<and> list_all2 (\<lambda>x d. getattr x (lit ''preliminary_diagnosis'') = Inr d) xs ds"
  then have "entries_by_attribute v = Inr ds"
    by (simp add: entries_by_attribute_def comprehension_all2)
  then show "extract_diagnosis_method rnd v = Inr ds"
    by (simp add: extract_diagnosis_method_def)
next
  assume b: "v = PDict dct \<and> map_of dct (lit ''entries'') = Some es \<and> iter es = Inr xs
      \<and> list_all2 (\<lambda>x d. \<exists>e. x = PDict e \<and> map_of e (lit ''preliminary_diagnosis'') = Some d) xs ds"
  then have all2: "list_all2 (\<lambda>x d. getitem x (lit ''preliminary_diagnosis'') = Inr d) xs ds"
    by (auto elim!: list_all2_mono)
  have key: "entries_by_key v = Inr ds"
    using b comprehension_all2[OF all2] by (simp add: entries_by_key_def)
  have dwe: "dict_with_entries v" using b by (auto simp: dict_with_entries_iff)
  show "extract_diagnosis_method rnd v = Inr ds"
  proof (cases xs)
    case Nil
    with b have "ds = []" by simp
    moreover have "entries_by_attribute v = Inr []"
      using b Nil by (simp add: entries_by_attribute_def)
    ultimately show ?thesis by (simp add: extract_diagnosis_method_def)
  next
    case (Cons x xs')
    with b obtain e where "x = PDict e" by (auto simp: list_all2_Cons1)
    then have "\<exists>err. entries_by_attribute v = Inl err"
      using b Cons by (simp add: entries_by_attribute_def)
    then show ?thesis using key dwe by (auto simp: extract_diagnosis_method_def)
  qed
next
  assume "\<not> dict_with_entries v \<and> entries_by_attribute v = Inl e"
  then show "extract_diagnosis_method rnd v = Inr [PStr (py_str rnd v)]"
    by (simp add: extract_diagnosis_method_def)
next
  assume "\<not> dict_with_entries v"
  then show "\<exists>ds. extract_diagnosis_method rnd v = Inr ds"
    by (cases "entries_by_attribute v") (simp_all add: extract_diagnosis_method_def)
qed

text \<open>
  A dict containing \<open>entries\<close> whose entry lacks the key makes the fallback raise
  \<open>KeyError\<close>, and a field that is not a string is returned as it is.
\<close>

theorem C4_counterexample:
  "extract_diagnosis_method (render demo_services)
     (PDict [(lit ''entries'', PList [PDict [(lit ''reasoning'', PStr (lit ''fever with cough''))]])])
     = Inl (KeyError (PStr (lit ''preliminary_diagnosis'')))
   \<and> extract_diagnosis_method (render demo_services)
     (PDict [(lit ''entries'', PList [PDict [(lit ''preliminary_diagnosis'', PInt 7)]])])
     = Inr [PInt 7]"
  by (simp add: extract_diagnosis_method_def entries_by_attribute_def entries_by_key_def lit_eq_iff)

theorem C4_witness:
  "extract_diagnosis_method (render demo_services) (crew_output demo_diagnoses) = Inr [PStr (lit ''Influenza'')]
   \<and> extract_diagnosis_method (render demo_services)
       (PDict [(lit ''entries'', PList [PDict [(lit ''preliminary_diagnosis'', PStr (lit ''Asthma''))]])])
       = Inr [PStr (lit ''Asthma'')]
   \<and> extract_diagnosis_method (render demo_services) (PStr (lit ''raw text'')) = Inr [PStr (lit ''raw text'')]
   \<and> (\<exists>ds. extract_diagnosis_method (render demo_services) PNone = Inr ds)"
proof -
  let ?pd = "lit ''preliminary_diagnosis''"
  let ?obj = "diagnosis_object \<lparr>preliminary_diagnosis = lit ''Influenza'',
                   reasoning = lit ''fever with cough'',
                   recommendations = [lit ''rest'', lit ''fluids'']\<rparr>"
  have a: "getitem (crew_output demo_diagnoses) (lit ''entries'') = Inr (PList [?obj])
      \<and> iter (PList [?obj]) = Inr [?obj]
      \<and> list_all2 (\<lambda>x d. getattr x ?pd = Inr d) [?obj] [PStr (lit ''Influenza'')]"
    by (simp add: crew_output_def demo_diagnoses_def diagnosis_object_def lit_eq_iff)
  let ?d = "[(lit ''entries'', PList [PDict [(?pd, PStr (lit ''Asthma''))]])]"
  have b: "PDict ?d = PDict ?d \<and> map_of ?d (lit ''entries'') = Some (PList [PDict [(?pd, PStr (lit ''Asthma''))]])
      \<and> iter (PList [PDict [(?pd, PStr (lit ''Asthma''))]]) = Inr [PDict [(?pd, PStr (lit ''Asthma''))]]
      \<and> list_all2 (\<lambda>x d. \<exists>e. x = PDict e \<and> map_of e ?pd = Some d)
            [PDict [(?pd, PStr (lit ''Asthma''))]] [PStr (lit ''Asthma'')]"
    by simp
  have c: "\<not> dict_with_entries (PStr (lit ''raw text''))
      \<and> entries_by_attribute (PStr (lit ''raw text'')) = Inl TypeError"
    by (simp add: entries_by_attribute_def)
  have d: "\<not> dict_with_entries PNone" by simp
  from C4[of "crew_output demo_diagnoses" "PList [?obj]" "[?obj]" "[PStr (lit ''Influenza'')]"
             "render demo_services"] a
  have 1: "extract_diagnosis_method (render demo_services) (crew_output demo_diagnoses) = Inr [PStr (lit ''Influenza'')]"
    by blast
  from C4[of "PDict ?d" "PList [PDict [(?pd, PStr (lit ''Asthma''))]]" "[PDict [(?pd, PStr (lit ''Asthma''))]]"
             "[PStr (lit ''Asthma'')]" "render demo_services" ?d] b
  have 2: "extract_diagnosis_method (render demo_services) (PDict ?d) = Inr [PStr (lit ''Asthma'')]"
    by blast
  from C4[of "PStr (lit ''raw text'')" _ _ _ "render demo_services" _ TypeError] c
  have 3: "extract_diagnosis_method (render demo_services) (PStr (lit ''raw text'')) = Inr [PStr (lit ''raw text'')]"
    by (simp add: py_str_def)
  from C4[of PNone _ _ _ "render demo_services"] d
  have 4: "\<exists>ds. extract_diagnosis_method (render demo_services) PNone = Inr ds"
    by blast
  from 1 2 3 4 show ?thesis by blast
qed

section \<open>Properties of the preliminary-diagnosis stage\<close>




section \<open>Properties of the question-answering service\<close>



section \<open>Properties of the endpoints\<close>




end
